theory Spec2Isabelle
  imports Main "HOL-Library.Multiset"
begin

section \<open>Python strings\<close>

text \<open>
  A Python \<open>str\<close> is a sequence of Unicode code points: \<open>len\<close>, slicing and \<open>in\<close>
  all count code points, and the literals of the scripts are Chinese.  A string is
  therefore a list of code point numbers, and every literal of the source is written
  out as such a list (the code points are given in the comment beside it).
\<close>

type_synonym pystr = "nat list"

text \<open>\<open>s.startswith(p)\<close>.\<close>

fun py_startswith :: "pystr \<Rightarrow> pystr \<Rightarrow> bool" where
  "py_startswith [] s = True"
| "py_startswith (x # xs) [] = False"
| "py_startswith (x # xs) (y # ys) = (x = y \<and> py_startswith xs ys)"

text \<open>\<open>needle in s\<close>: the needle occurs as a contiguous run of \<open>s\<close>.\<close>

fun py_in :: "pystr \<Rightarrow> pystr \<Rightarrow> bool" where
  "py_in needle [] = (needle = [])"
| "py_in needle (y # ys) = (py_startswith needle (y # ys) \<or> py_in needle ys)"

text \<open>
  \<open>str.isspace\<close> on one code point: the white space that \<open>str.strip()\<close> removes
  (U+0009..U+000D, U+001C..U+0020, U+0085, U+00A0, U+1680, U+2000..U+200A, U+2028,
  U+2029, U+202F, U+205F, U+3000).
\<close>

definition is_space :: "nat \<Rightarrow> bool" where
  "is_space c =
    ((9 \<le> c \<and> c \<le> 13) \<or> (28 \<le> c \<and> c \<le> 32) \<or> c = 133 \<or> c = 160 \<or> c = 5760 \<or>
     (8192 \<le> c \<and> c \<le> 8202) \<or> c = 8232 \<or> c = 8233 \<or> c = 8239 \<or> c = 8287 \<or> c = 12288)"

text \<open>\<open>s.strip()\<close>.\<close>

definition py_strip :: "pystr \<Rightarrow> pystr" where
  "py_strip s = rev (dropWhile is_space (rev (dropWhile is_space s)))"

text \<open>
  \<open>s.lower()\<close>.  The scripts only ever look for the ASCII needles \<open>saas\<close> and \<open>sdk\<close>
  in a lowered string.  The code points whose lower case contains an ASCII code point
  are \<open>A\<close>..\<open>Z\<close>, U+0130 (which lowers to \<open>i\<close> followed by U+0307) and U+212A (the
  Kelvin sign, which lowers to \<open>k\<close>); every other code point lowers to one or more
  non-ASCII code points and is kept as it is here, which leaves every search for an
  ASCII needle unchanged.
\<close>

definition lower_cp :: "nat \<Rightarrow> pystr" where
  "lower_cp c =
    (if 65 \<le> c \<and> c \<le> 90 then [c + 32]
     else if c = 304 then [105, 775]
     else if c = 8490 then [107]
     else [c])"

definition py_lower :: "pystr \<Rightarrow> pystr" where
  "py_lower s = concat (map lower_cp s)"

text \<open>
  \<open>s.replace(old, '')\<close>: the occurrences of \<open>old\<close> are removed from left to right,
  without overlap.  With an empty \<open>old\<close> Python returns \<open>s\<close> itself.
\<close>

function py_remove :: "pystr \<Rightarrow> pystr \<Rightarrow> pystr" where
  "py_remove old [] = []"
| "py_remove old (c # cs) =
    (if old \<noteq> [] \<and> py_startswith old (c # cs)
     then py_remove old (drop (length old) (c # cs))
     else c # py_remove old cs)"
  by pat_completeness auto
termination
  by (relation "measure (\<lambda>(old, s). length s)") (auto simp: neq_Nil_conv)

section \<open>Literals of the scripts\<close>

text \<open>\<open>'SaaS'\<close>\<close>
definition s_SaaS :: pystr where "s_SaaS = [83, 97, 97, 83]"
text \<open>\<open>'saas'\<close>\<close>
definition s_saas :: pystr where "s_saas = [115, 97, 97, 115]"
text \<open>\<open>'SDK'\<close>\<close>
definition s_SDK :: pystr where "s_SDK = [83, 68, 75]"
text \<open>\<open>'sdk'\<close>\<close>
definition s_sdk :: pystr where "s_sdk = [115, 100, 107]"
text \<open>\<open>'nan'\<close>\<close>
definition s_nan :: pystr where "s_nan = [110, 97, 110]"
text \<open>U+79C1 U+6709 U+5316 (si you hua, "private deployment")\<close>
definition s_private :: pystr where "s_private = [31169, 26377, 21270]"
text \<open>\<open>SaaS\<close> U+5BA2 U+6237 ("SaaS customer")\<close>
definition s_SaaS_customer :: pystr where "s_SaaS_customer = [83, 97, 97, 83, 23458, 25143]"
text \<open>U+672A U+5206 U+7C7B (wei fen lei, "unclassified")\<close>
definition s_unclassified :: pystr where "s_unclassified = [26410, 20998, 31867]"

lemmas classifier_lits =
  s_SaaS_def s_saas_def s_SDK_def s_sdk_def s_private_def s_SaaS_customer_def
  s_unclassified_def

section \<open>Rows of the two tables\<close>

text \<open>
  A cell of a data frame read from CSV is a text or missing (\<open>NaN\<close>, or a column that
  is absent): \<open>None\<close> is the missing cell.
\<close>

record issue =
  issue_type :: "pystr option"
  summary :: "pystr option"
  description :: "pystr option"
  customer_name :: "pystr option"
  discovery_environment :: "pystr option"

text \<open>\<open>str(v) if pd.notna(v) else ''\<close>\<close>

definition cell_text :: "pystr option \<Rightarrow> pystr" where
  "cell_text v = (case v of None \<Rightarrow> [] | Some s \<Rightarrow> s)"

section \<open>The classifier (\<open>analyze_saas_private.py\<close>, \<open>classify_deployment\<close>)\<close>

text \<open>
  The known private customers, in the order of the source: U+798F U+7530; U+5357 U+65B9
  U+7535 U+7F51; \<open>OPPO\<close>; U+5E7F U+4E1C U+7535 U+4FE1; U+552F U+54C1 U+4F1A; U+597D U+672A
  U+6765; U+62DB U+5546; U+65B0 U+534E U+4E09; U+8DE8 U+8D8A; \<open>TCL\<close>; U+767E U+5EA6;
  U+5C0F U+7EA2 U+4E66; U+683C U+529B; U+733F U+8F85 U+5BFC; \<open>360\<close>; U+7389 U+6EAA;
  U+4E1C U+98CE; U+878D U+4E91; U+6EF4 U+6EF4; U+4F5C U+4E1A U+5E2E.
\<close>

definition private_keywords :: "pystr list" where
  "private_keywords =
    [[31119, 30000], [21335, 26041, 30005, 32593], [79, 80, 80, 79],
     [24191, 19996, 30005, 20449], [21807, 21697, 20250], [22909, 26410, 26469],
     [25307, 21830], [26032, 21326, 19977], [36328, 36234], [84, 67, 76],
     [30334, 24230], [23567, 32418, 20070], [26684, 21147], [29503, 36741, 23548],
     [51, 54, 48], [29577, 28330], [19996, 39118], [34701, 20113], [28404, 28404],
     [20316, 19994, 24110]]"

text \<open>\<open>for kw in kws: if kw in s: return ...\<close>: does the loop return?\<close>

fun any_in :: "pystr list \<Rightarrow> pystr \<Rightarrow> bool" where
  "any_in [] s = False"
| "any_in (kw # kws) s = (if py_in kw s then True else any_in kws s)"

definition classify_deployment :: "issue \<Rightarrow> pystr" where
  "classify_deployment row =
    (let env = cell_text (discovery_environment row);
         customer = cell_text (customer_name row)
     in if py_in s_SaaS env \<or> py_in s_saas (py_lower env) then s_SaaS
        else if py_in s_private env then s_private
        else if customer = s_SaaS_customer \<or> py_in s_SaaS customer then s_SaaS
        else if py_in s_SDK customer \<or> py_in s_sdk (py_lower customer) then s_private
        else if any_in private_keywords customer then s_private
        else if customer \<noteq> [] \<and> py_strip customer \<noteq> [] then s_private
        else s_unclassified)"

section \<open>The reconciler (\<open>quality_analysis.py\<close>)\<close>

text \<open>U+6545 U+969C (gu zhang, "fault"): the issue type of the candidates\<close>
definition s_fault :: pystr where "s_fault = [25925, 38556]"
text \<open>U+6545 U+969C U+62A5 U+544A (gu zhang bao gao, "fault report")\<close>
definition s_fault_report :: pystr where "s_fault_report = [25925, 38556, 25253, 21578]"
text \<open>U+7684 (the particle de)\<close>
definition s_de :: pystr where "s_de = [30340]"
text \<open>\<open>' '\<close>\<close>
definition s_space :: pystr where "s_space = [32]"
text \<open>U+8868 U+683C (biao ge, "spreadsheet")\<close>
definition k_table :: pystr where "k_table = [34920, 26684]"
text \<open>U+8868 U+5355 (biao dan, "form")\<close>
definition k_form :: pystr where "k_form = [34920, 21333]"
text \<open>U+6587 U+6863 (wen dang, "document")\<close>
definition k_doc :: pystr where "k_doc = [25991, 26723]"
text \<open>U+6587 U+4EF6 (wen jian, "file")\<close>
definition k_file :: pystr where "k_file = [25991, 20214]"
text \<open>U+540C U+6B65 (tong bu, "synchronization")\<close>
definition k_sync :: pystr where "k_sync = [21516, 27493]"
text \<open>U+767B U+5F55 (deng lu, "login")\<close>
definition k_login :: pystr where "k_login = [30331, 24405]"
text \<open>U+767D U+5C4F (bai ping, "blank screen")\<close>
definition k_blank :: pystr where "k_blank = [30333, 23631]"

lemmas reconciler_lits =
  s_nan_def s_fault_def s_fault_report_def s_de_def s_space_def k_table_def k_form_def
  k_doc_def k_file_def k_sync_def k_login_def k_blank_def

text \<open>
  The customer names of \<open>extract_keywords\<close>, in the order of the source: U+733F U+8F85
  U+5BFC; U+597D U+672A U+6765; U+5C0F U+7EA2 U+4E66; U+4EAC U+4E1C; \<open>OPPO\<close>; U+8FB9 U+950B;
  U+535A U+7EB3; U+5E7F U+4E1C U+7535 U+4FE1; U+5317 U+4EAC U+51EF U+8BFB; U+6EF4 U+6EF4;
  U+62DB U+5546; U+878D U+4E91; U+4E1C U+98CE; U+683C U+529B; \<open>360\<close>; U+7389 U+6EAA.
\<close>

definition customers :: "pystr list" where
  "customers =
    [[29503, 36741, 23548], [22909, 26410, 26469], [23567, 32418, 20070], [20140, 19996],
     [79, 80, 80, 79], [36793, 38155], [21338, 32435], [24191, 19996, 30005, 20449],
     [21271, 20140, 20975, 35835], [28404, 28404], [25307, 21830], [34701, 20113],
     [19996, 39118], [26684, 21147], [51, 54, 48], [29577, 28330]]"

text \<open>A row of the incident log; only these three columns are read by the matching.\<close>

record incident =
  report_name :: "pystr option"
  incident_date :: "pystr option"
  incident_customer :: "pystr option"

text \<open>\<open>str(v)\<close> on a cell: a missing cell prints as \<open>nan\<close>.\<close>

definition py_str :: "pystr option \<Rightarrow> pystr" where
  "py_str v = (case v of None \<Rightarrow> s_nan | Some s \<Rightarrow> s)"

text \<open>\<open>for c in customers: if c in str(text): keywords.append(c)\<close>\<close>

fun tokens_in :: "pystr list \<Rightarrow> pystr \<Rightarrow> pystr list" where
  "tokens_in [] text = []"
| "tokens_in (c # cs) text =
    (if py_in c text then c # tokens_in cs text else tokens_in cs text)"

definition extract_keywords :: "pystr option \<Rightarrow> pystr list" where
  "extract_keywords text =
    (case text of
       None \<Rightarrow> []
     | Some t \<Rightarrow>
         tokens_in customers t
         @ (if py_in k_table t \<or> py_in k_form t then [k_table] else [])
         @ (if py_in k_doc t \<or> py_in k_file t then [k_doc] else [])
         @ (if py_in k_sync t then [k_sync] else [])
         @ (if py_in k_login t then [k_login] else [])
         @ (if py_in k_blank t then [k_blank] else []))"

text \<open>
  The keyword list of one incident row, as \<open>match_incidents_with_jira\<close> builds it:
  \<open>extract_keywords(incident_name)\<close>, then the customer cell appended when it is
  neither empty nor \<open>nan\<close>.
\<close>

definition incident_keywords :: "incident \<Rightarrow> pystr list" where
  "incident_keywords row =
    (let incident_name = py_str (report_name row);
         customer = cell_text (incident_customer row);
         keywords = extract_keywords (Some incident_name)
     in if customer \<noteq> [] \<and> customer \<noteq> s_nan then keywords @ [customer] else keywords)"

text \<open>\<open>jira_summary + ' ' + jira_desc + ' ' + jira_customer\<close>\<close>

definition combined_text :: "issue \<Rightarrow> pystr" where
  "combined_text jrow =
    cell_text (summary jrow) @ s_space @ cell_text (description jrow) @ s_space
    @ cell_text (customer_name jrow)"

text \<open>\<open>sum(1 for kw in keywords if kw in combined_text)\<close>\<close>

fun count_in :: "pystr list \<Rightarrow> pystr \<Rightarrow> nat" where
  "count_in [] text = 0"
| "count_in (kw # kws) text = (if py_in kw text then 1 + count_in kws text else count_in kws text)"

text \<open>\<open>incident_name.replace(fault_report, '').replace(de, '').strip()\<close>\<close>

definition name_parts :: "pystr \<Rightarrow> pystr" where
  "name_parts incident_name = py_strip (py_remove s_de (py_remove s_fault_report incident_name))"

text \<open>The score of one candidate: the keyword count, then the bonus for the name.\<close>

definition match_count :: "pystr list \<Rightarrow> pystr \<Rightarrow> pystr \<Rightarrow> nat" where
  "match_count keywords incident_name text =
    (let n = count_in keywords text;
         parts = name_parts incident_name
     in if 5 < length parts \<and> py_in (take 10 parts) text then n + 2 else n)"

text \<open>
  The inner loop over \<open>jira_faults\<close>: the first row that scores at least 2 is kept
  (\<open>found = True; matched_jira = jrow; break\<close>), \<open>None\<close> when the loop runs out.
\<close>

fun find_match :: "pystr list \<Rightarrow> pystr \<Rightarrow> issue list \<Rightarrow> issue option" where
  "find_match keywords incident_name [] = None"
| "find_match keywords incident_name (jrow # rest) =
    (if 2 \<le> match_count keywords incident_name (combined_text jrow) then Some jrow
     else find_match keywords incident_name rest)"

text \<open>\<open>jira[jira[issue type] == fault]\<close>\<close>

definition jira_faults :: "issue list \<Rightarrow> issue list" where
  "jira_faults jira = filter (\<lambda>jrow. issue_type jrow = Some s_fault) jira"

text \<open>
  The outer loop over the incident rows, with the two result lists \<open>matches\<close> and
  \<open>no_matches\<close> as its state; a match is the pair of the incident row and the issue row.
\<close>

type_synonym match_state = "(incident \<times> issue) list \<times> incident list"

fun match_loop :: "issue list \<Rightarrow> incident list \<Rightarrow> match_state \<Rightarrow> match_state" where
  "match_loop faults [] st = st"
| "match_loop faults (row # rows) (matches, no_matches) =
    (case find_match (incident_keywords row) (py_str (report_name row)) faults of
       Some matched_jira \<Rightarrow> match_loop faults rows (matches @ [(row, matched_jira)], no_matches)
     | None \<Rightarrow> match_loop faults rows (matches, no_matches @ [row]))"

definition match_incidents_with_jira :: "incident list \<Rightarrow> issue list \<Rightarrow> match_state" where
  "match_incidents_with_jira incidents jira = match_loop (jira_faults jira) incidents ([], [])"

subsection \<open>The same loops as a transition system\<close>

text \<open>
  One run of the script, step by step: \<open>scan\<close> is the inner loop, \<open>step\<close> one turn of
  the outer loop on the state (rows still to do, \<open>matches\<close>, \<open>no_matches\<close>), and
  \<open>run\<close> a complete execution down to the returned pair.
\<close>

inductive scan :: "pystr list \<Rightarrow> pystr \<Rightarrow> issue list \<Rightarrow> issue option \<Rightarrow> bool" where
  scan_end: "scan keywords incident_name [] None"
| scan_hit: "2 \<le> match_count keywords incident_name (combined_text jrow)
    \<Longrightarrow> scan keywords incident_name (jrow # rest) (Some jrow)"
| scan_next: "match_count keywords incident_name (combined_text jrow) < 2
    \<Longrightarrow> scan keywords incident_name rest r
    \<Longrightarrow> scan keywords incident_name (jrow # rest) r"

inductive step :: "issue list \<Rightarrow> incident list \<times> match_state \<Rightarrow> incident list \<times> match_state \<Rightarrow> bool" where
  step_match: "scan (incident_keywords row) (py_str (report_name row)) faults (Some matched_jira)
    \<Longrightarrow> step faults (row # rows, (matches, no_matches))
          (rows, (matches @ [(row, matched_jira)], no_matches))"
| step_no_match: "scan (incident_keywords row) (py_str (report_name row)) faults None
    \<Longrightarrow> step faults (row # rows, (matches, no_matches)) (rows, (matches, no_matches @ [row]))"

inductive run :: "issue list \<Rightarrow> incident list \<times> match_state \<Rightarrow> match_state \<Rightarrow> bool" where
  run_done: "run faults ([], st) st"
| run_step: "step faults s s' \<Longrightarrow> run faults s' result \<Longrightarrow> run faults s result"

definition reconciles :: "incident list \<Rightarrow> issue list \<Rightarrow> match_state \<Rightarrow> bool" where
  "reconciles incidents jira result = run (jira_faults jira) (incidents, ([], [])) result"

subsection \<open>The score as the specification words it\<close>

text \<open>
  The specification's step 2c takes the report name "stripped of the generic words"
  and says nothing of the white space that the source trims afterwards:
  \<open>spec_name_parts\<close> and \<open>spec_match_count\<close> follow those words.
\<close>

definition spec_name_parts :: "pystr \<Rightarrow> pystr" where
  "spec_name_parts incident_name = py_remove s_de (py_remove s_fault_report incident_name)"

definition spec_match_count :: "pystr list \<Rightarrow> pystr \<Rightarrow> pystr \<Rightarrow> nat" where
  "spec_match_count keywords incident_name text =
    length (filter (\<lambda>kw. py_in kw text) keywords)
    + (if 5 < length (spec_name_parts incident_name)
          \<and> py_in (take 10 (spec_name_parts incident_name)) text
       then 2 else 0)"

text \<open>The same wording with the trimming of the source added.\<close>

definition trimmed_match_count :: "pystr list \<Rightarrow> pystr \<Rightarrow> pystr \<Rightarrow> nat" where
  "trimmed_match_count keywords incident_name text =
    length (filter (\<lambda>kw. py_in kw text) keywords)
    + (if 5 < length (py_strip (spec_name_parts incident_name))
          \<and> py_in (take 10 (py_strip (spec_name_parts incident_name))) text
       then 2 else 0)"

subsection \<open>The keyword list as the specification words it\<close>

text \<open>
  The fixed domain terms with the substrings that trigger each of them, and the keyword
  list of step 1 of the specification: the customer tokens found in the report name,
  the domain terms whose triggers are found there, then the customer cell.
\<close>

definition domain_terms :: "(pystr \<times> pystr list) list" where
  "domain_terms =
    [(k_table, [k_table, k_form]), (k_doc, [k_doc, k_file]), (k_sync, [k_sync]),
     (k_login, [k_login]), (k_blank, [k_blank])]"

definition spec_keywords :: "incident \<Rightarrow> pystr list" where
  "spec_keywords row =
    (let name = py_str (report_name row);
         customer = cell_text (incident_customer row)
     in filter (\<lambda>c. py_in c name) customers
        @ map fst (filter (\<lambda>(kw, triggers). any_in triggers name) domain_terms)
        @ (if customer \<noteq> [] \<and> customer \<noteq> s_nan then [customer] else []))"

subsection \<open>The issue bound to one incident row\<close>

text \<open>What the inner loop leaves in \<open>matched_jira\<close> for one incident row.\<close>

definition bound_issue :: "issue list \<Rightarrow> incident \<Rightarrow> issue option" where
  "bound_issue faults row = find_match (incident_keywords row) (py_str (report_name row)) faults"

section \<open>Example rows\<close>

text \<open>U+6EF4 U+6EF4 (di di), a customer of the allow-list\<close>
definition s_didi :: pystr where "s_didi = [28404, 28404]"

text \<open>
  The report name of the specification's scenario: U+6EF4 U+6EF4 U+6587 U+6863 U+540C
  U+6B65 U+6545 U+969C U+62A5 U+544A (the customer, "document", "synchronization",
  "fault report").
\<close>
definition s_didi_report :: pystr where
  "s_didi_report = [28404, 28404, 25991, 26723, 21516, 27493, 25925, 38556, 25253, 21578]"

text \<open>The incident of the scenario, with no customer cell.\<close>
definition inc_didi :: incident where
  "inc_didi =
    \<lparr>report_name = Some [28404, 28404, 25991, 26723, 21516, 27493, 25925, 38556, 25253, 21578],
     incident_date = None, incident_customer = None\<rparr>"

text \<open>The same incident with the customer cell U+6EF4 U+6EF4.\<close>
definition inc_didi_customer :: incident where
  "inc_didi_customer =
    \<lparr>report_name = Some s_didi_report, incident_date = None, incident_customer = Some s_didi\<rparr>"

text \<open>A fault whose summary is U+6EF4 U+6EF4 and whose description is U+540C U+6B65.\<close>
definition jira_didi :: issue where
  "jira_didi =
    \<lparr>issue_type = Some s_fault, summary = Some [28404, 28404],
     description = Some [21516, 27493], customer_name = None, discovery_environment = None\<rparr>"

text \<open>
  A fault whose summary is U+6EF4 U+6EF4 U+6587 U+6863 (the customer, then "document")
  and whose description is U+540C U+6B65.
\<close>
definition jira_didi_doc :: issue where
  "jira_didi_doc =
    \<lparr>issue_type = Some s_fault, summary = Some [28404, 28404, 25991, 26723],
     description = Some [21516, 27493], customer_name = None, discovery_environment = None\<rparr>"

text \<open>A fault that only names the customer U+6EF4 U+6EF4.\<close>
definition jira_didi_only :: issue where
  "jira_didi_only =
    \<lparr>issue_type = Some s_fault, summary = Some s_didi, description = None,
     customer_name = None, discovery_environment = None\<rparr>"

text \<open>
  An incident named \<open>login\<close>, a space, then U+6545 U+969C U+62A5 U+544A ("fault report"),
  and a fault whose summary is \<open>login failed\<close>.
\<close>
definition inc_login :: incident where
  "inc_login =
    \<lparr>report_name = Some [108, 111, 103, 105, 110, 32, 25925, 38556, 25253, 21578],
     incident_date = None, incident_customer = None\<rparr>"

definition jira_login :: issue where
  "jira_login =
    \<lparr>issue_type = Some s_fault,
     summary = Some [108, 111, 103, 105, 110, 32, 102, 97, 105, 108, 101, 100],
     description = None, customer_name = None, discovery_environment = None\<rparr>"

text \<open>
  An incident whose name is the five domain terms in a row: U+8868 U+683C U+6587 U+6863
  U+540C U+6B65 U+767B U+5F55 U+767D U+5C4F.
\<close>
definition inc_five :: incident where
  "inc_five =
    \<lparr>report_name = Some [34920, 26684, 25991, 26723, 21516, 27493, 30331, 24405, 30333, 23631],
     incident_date = None, incident_customer = None\<rparr>"

section \<open>Facts about the string operations\<close>

lemma py_startswith_iff: "py_startswith p s \<longleftrightarrow> (\<exists>r. s = p @ r)"
  by (induction p s rule: py_startswith.induct) auto

lemma py_in_iff: "py_in needle s \<longleftrightarrow> (\<exists>a b. s = a @ needle @ b)"
proof (induction s)
  case Nil
  show ?case by auto
next
  case (Cons y ys)
  have "(\<exists>a b. y # ys = a @ needle @ b) \<longleftrightarrow>
        (\<exists>b. y # ys = needle @ b) \<or> (\<exists>a b. ys = a @ needle @ b)"
  proof
    assume "\<exists>a b. y # ys = a @ needle @ b"
    then obtain a b where ab: "y # ys = a @ needle @ b" by blast
    show "(\<exists>b. y # ys = needle @ b) \<or> (\<exists>a b. ys = a @ needle @ b)"
    proof (cases a)
      case Nil
      with ab show ?thesis by auto
    next
      case (Cons a0 a')
      with ab have "ys = a' @ needle @ b" by simp
      then show ?thesis by blast
    qed
  next
    assume "(\<exists>b. y # ys = needle @ b) \<or> (\<exists>a b. ys = a @ needle @ b)"
    then show "\<exists>a b. y # ys = a @ needle @ b"
    proof
      assume "\<exists>b. y # ys = needle @ b"
      then obtain b where "y # ys = [] @ needle @ b" by auto
      then show ?thesis by blast
    next
      assume "\<exists>a b. ys = a @ needle @ b"
      then obtain a b where "y # ys = (y # a) @ needle @ b" by auto
      then show ?thesis by blast
    qed
  qed
  with Cons show ?case by (simp add: py_startswith_iff)
qed

lemma py_in_set: "py_in needle s \<Longrightarrow> set needle \<subseteq> set s"
  by (auto simp: py_in_iff)

lemma py_strip_empty_iff: "py_strip s = [] \<longleftrightarrow> (\<forall>c \<in> set s. is_space c)"
proof
  assume "py_strip s = []"
  then have "dropWhile is_space (rev (dropWhile is_space s)) = []"
    by (simp add: py_strip_def)
  then have "\<forall>c \<in> set (dropWhile is_space s). is_space c"
    by simp
  then have "dropWhile is_space s = []"
    by (metis hd_dropWhile hd_in_set)
  then show "\<forall>c \<in> set s. is_space c"
    by simp
next
  assume "\<forall>c \<in> set s. is_space c"
  then have "dropWhile is_space s = []"
    by simp
  then show "py_strip s = []"
    unfolding py_strip_def by (simp del: dropWhile_eq_Nil_conv)
qed

lemma py_in_trans: "py_in a b \<Longrightarrow> py_in b c \<Longrightarrow> py_in a c"
proof -
  assume "py_in a b" "py_in b c"
  then obtain p q r s where "b = p @ a @ q" "c = r @ b @ s"
    by (auto simp: py_in_iff)
  then have "c = (r @ p) @ a @ (q @ s)" by simp
  then show ?thesis unfolding py_in_iff by blast
qed

lemma py_in_appendI1: "py_in a s \<Longrightarrow> py_in a (s @ t)"
proof -
  assume "py_in a s"
  then obtain p q where "s = p @ a @ q" by (auto simp: py_in_iff)
  then have "s @ t = p @ a @ (q @ t)" by simp
  then show ?thesis unfolding py_in_iff by blast
qed

lemma py_in_appendI2: "py_in a s \<Longrightarrow> py_in a (t @ s)"
proof -
  assume "py_in a s"
  then obtain p q where "s = p @ a @ q" by (auto simp: py_in_iff)
  then have "t @ s = (t @ p) @ a @ q" by simp
  then show ?thesis unfolding py_in_iff by blast
qed

section \<open>Facts about the classifier\<close>

lemma any_in_iff: "any_in kws s \<longleftrightarrow> (\<exists>kw \<in> set kws. py_in kw s)"
  by (induction kws) auto

lemma blank_no_needle:
  assumes "\<forall>c \<in> set s. is_space c" and "needle \<noteq> []" and "\<not> is_space (hd needle)"
  shows "\<not> py_in needle s"
proof
  assume "py_in needle s"
  then have "set needle \<subseteq> set s" by (rule py_in_set)
  moreover have "hd needle \<in> set needle" using assms(2) by simp
  ultimately show False using assms(1,3) by blast
qed

lemma lower_cp_space: "is_space c \<Longrightarrow> lower_cp c = [c]"
  by (auto simp: is_space_def lower_cp_def)

lemma py_lower_blank: "\<forall>c \<in> set s. is_space c \<Longrightarrow> py_lower s = s"
  by (induction s) (simp_all add: py_lower_def lower_cp_space)

lemma private_keywords_no_space: "kw \<in> set private_keywords \<Longrightarrow> \<not> is_space (hd kw) \<and> kw \<noteq> []"
  by (auto simp: private_keywords_def is_space_def)

lemma blank_no_private_keyword:
  assumes "\<forall>c \<in> set s. is_space c"
  shows "\<not> any_in private_keywords s"
proof
  assume "any_in private_keywords s"
  then obtain kw where kw: "kw \<in> set private_keywords" "py_in kw s"
    by (auto simp: any_in_iff)
  from kw(1) have "kw \<noteq> []" "\<not> is_space (hd kw)"
    using private_keywords_no_space by auto
  with assms kw(2) show False
    using blank_no_needle by blast
qed

lemma labels_distinct:
  "s_SaaS \<noteq> s_private" "s_SaaS \<noteq> s_unclassified" "s_private \<noteq> s_unclassified"
  by (simp_all add: classifier_lits)

lemma py_lower_append: "py_lower (a @ b) = py_lower a @ py_lower b"
  by (simp add: py_lower_def)

lemma py_in_lower:
  assumes "py_in needle s"
  shows "py_in (py_lower needle) (py_lower s)"
proof -
  from assms obtain a b where "s = a @ needle @ b"
    by (auto simp: py_in_iff)
  then have "py_lower s = py_lower a @ py_lower needle @ py_lower b"
    by (simp add: py_lower_append)
  then show ?thesis
    unfolding py_in_iff by blast
qed

lemma lower_SaaS: "py_lower s_SaaS = s_saas"
  by (simp add: py_lower_def lower_cp_def classifier_lits)

lemma lower_SDK: "py_lower s_SDK = s_sdk"
  by (simp add: py_lower_def lower_cp_def classifier_lits)

lemma set_py_lower: "set (py_lower s) = (\<Union>c \<in> set s. set (lower_cp c))"
  by (simp add: py_lower_def)

lemma lowers_to_s: "115 \<in> set (lower_cp c) \<Longrightarrow> c = 83 \<or> c = 115"
  by (auto simp: lower_cp_def split: if_splits)

section \<open>Claims about the classifier\<close>

text \<open>
  C1.  The classifier is a total function of one issue row: whatever the row holds,
  also when both cells are missing, it returns one of the three labels \<open>SaaS\<close>,
  private (U+79C1 U+6709 U+5316) and unclassified (U+672A U+5206 U+7C7B), which are
  three different strings; and when the environment cell and the customer cell are
  both empty or white space only, the label is the unclassified one.
\<close>

theorem classify_deployment_total:
  "classify_deployment row \<in> {s_SaaS, s_private, s_unclassified} \<and>
   card {s_SaaS, s_private, s_unclassified} = 3 \<and>
   (py_strip (cell_text (discovery_environment row)) = [] \<and>
    py_strip (cell_text (customer_name row)) = [] \<longrightarrow>
    classify_deployment row = s_unclassified)"
proof (intro conjI)
  show "classify_deployment row \<in> {s_SaaS, s_private, s_unclassified}"
    by (simp add: classify_deployment_def Let_def)
next
  show "card {s_SaaS, s_private, s_unclassified} = 3"
    using labels_distinct by simp
next
  show "py_strip (cell_text (discovery_environment row)) = [] \<and>
    py_strip (cell_text (customer_name row)) = [] \<longrightarrow>
    classify_deployment row = s_unclassified"
  proof
    assume blank: "py_strip (cell_text (discovery_environment row)) = [] \<and>
      py_strip (cell_text (customer_name row)) = []"
    define env where "env = cell_text (discovery_environment row)"
    define customer where "customer = cell_text (customer_name row)"
    from blank have e: "\<forall>c \<in> set env. is_space c" and c: "\<forall>c \<in> set customer. is_space c"
      by (simp_all add: env_def customer_def py_strip_empty_iff)
    have le: "py_lower env = env" and lc: "py_lower customer = customer"
      using e c by (simp_all add: py_lower_blank)
    have e1: "\<not> py_in s_SaaS env" "\<not> py_in s_saas env" "\<not> py_in s_private env"
      by (rule blank_no_needle [OF e]; simp add: classifier_lits is_space_def)+
    have c1: "\<not> py_in s_SaaS customer" "\<not> py_in s_SDK customer" "\<not> py_in s_sdk customer"
      by (rule blank_no_needle [OF c]; simp add: classifier_lits is_space_def)+
    have c2: "customer \<noteq> s_SaaS_customer"
      using c by (auto simp: classifier_lits is_space_def)
    have c3: "\<not> any_in private_keywords customer"
      using c by (rule blank_no_private_keyword)
    have c4: "py_strip customer = []"
      using c by (simp add: py_strip_empty_iff)
    show "classify_deployment row = s_unclassified"
      unfolding classify_deployment_def Let_def env_def [symmetric] customer_def [symmetric]
      using e1 c1 c2 c3 c4 le lc by simp
  qed
qed

theorem classify_deployment_total_witness:
  "py_strip (cell_text (discovery_environment
      \<lparr>issue_type = None, summary = None, description = None, customer_name = Some [32, 12288],
       discovery_environment = None\<rparr>)) = [] \<and>
   py_strip (cell_text (customer_name
      \<lparr>issue_type = None, summary = None, description = None, customer_name = Some [32, 12288],
       discovery_environment = None\<rparr>)) = [] \<and>
   classify_deployment
      \<lparr>issue_type = None, summary = None, description = None, customer_name = Some [32, 12288],
       discovery_environment = None\<rparr> = s_unclassified"
  using classify_deployment_total
    [of "\<lparr>issue_type = None, summary = None, description = None,
          customer_name = Some [32, 12288], discovery_environment = None\<rparr>"]
  by (simp add: cell_text_def py_strip_def is_space_def)

text \<open>
  C4.  An issue row whose environment cell contains the private marker U+79C1 U+6709
  U+5316 and contains \<open>SaaS\<close> in no casing is classified private whatever the customer
  cell holds; so the environment U+79C1 U+6709 U+5316 with the customer \<open>SaaS\<close> is
  private, the environment being looked at before the customer.
\<close>

theorem env_private_first:
  "(py_in s_private (cell_text (discovery_environment row)) \<and>
    \<not> py_in s_saas (py_lower (cell_text (discovery_environment row)))
    \<longrightarrow> classify_deployment row = s_private) \<and>
   classify_deployment
     \<lparr>issue_type = t, summary = s, description = d, customer_name = Some s_SaaS,
      discovery_environment = Some s_private\<rparr> = s_private"
proof
  show "py_in s_private (cell_text (discovery_environment row)) \<and>
    \<not> py_in s_saas (py_lower (cell_text (discovery_environment row)))
    \<longrightarrow> classify_deployment row = s_private"
  proof
    assume h: "py_in s_private (cell_text (discovery_environment row)) \<and>
      \<not> py_in s_saas (py_lower (cell_text (discovery_environment row)))"
    then have "\<not> py_in s_SaaS (cell_text (discovery_environment row))"
      using py_in_lower [of s_SaaS] by (auto simp: lower_SaaS)
    with h show "classify_deployment row = s_private"
      by (simp add: classify_deployment_def Let_def)
  qed
next
  show "classify_deployment
     \<lparr>issue_type = t, summary = s, description = d, customer_name = Some s_SaaS,
      discovery_environment = Some s_private\<rparr> = s_private"
    by (simp add: classify_deployment_def Let_def cell_text_def py_lower_def lower_cp_def
        classifier_lits)
qed

theorem env_private_first_witness:
  "py_in s_private (cell_text (discovery_environment
      \<lparr>issue_type = None, summary = None, description = None,
       customer_name = Some s_SaaS_customer,
       discovery_environment = Some (s_private @ [29615, 22659])\<rparr>)) \<and>
   \<not> py_in s_saas (py_lower (cell_text (discovery_environment
      \<lparr>issue_type = None, summary = None, description = None,
       customer_name = Some s_SaaS_customer,
       discovery_environment = Some (s_private @ [29615, 22659])\<rparr>))) \<and>
   classify_deployment
      \<lparr>issue_type = None, summary = None, description = None,
       customer_name = Some s_SaaS_customer,
       discovery_environment = Some (s_private @ [29615, 22659])\<rparr> = s_private"
  using env_private_first
    [of "\<lparr>issue_type = None, summary = None, description = None,
          customer_name = Some s_SaaS_customer,
          discovery_environment = Some (s_private @ [29615, 22659])\<rparr>"]
  by (simp add: cell_text_def py_lower_def lower_cp_def classifier_lits)

text \<open>
  C10.  The customer rule for \<open>SaaS\<close> is case sensitive: with an empty environment
  cell, a customer cell that contains \<open>saas\<close> in some casing but never as the exact
  \<open>SaaS\<close>, that holds no SDK marker and none of the known private customers, falls
  through to the default for a non-blank customer and is classified private, not SaaS.
\<close>

theorem customer_saas_case_sensitive:
  assumes env: "cell_text (discovery_environment row) = []"
    and saas: "py_in s_saas (py_lower (cell_text (customer_name row)))"
    and exact: "\<not> py_in s_SaaS (cell_text (customer_name row))"
    and sdk: "\<not> py_in s_sdk (py_lower (cell_text (customer_name row)))"
    and known: "\<not> any_in private_keywords (cell_text (customer_name row))"
  shows "classify_deployment row = s_private \<and> classify_deployment row \<noteq> s_SaaS"
proof -
  define customer where "customer = cell_text (customer_name row)"
  have "115 \<in> set s_saas" by (simp add: s_saas_def)
  with saas have "115 \<in> set (py_lower customer)"
    using py_in_set customer_def by blast
  then obtain c where c: "c \<in> set customer" "115 \<in> set (lower_cp c)"
    by (auto simp: set_py_lower)
  then have "\<not> is_space c"
    using lowers_to_s [of c] by (auto simp: is_space_def)
  with c(1) have nonblank: "customer \<noteq> []" "py_strip customer \<noteq> []"
    by (auto simp: py_strip_empty_iff)
  have not_sentinel: "customer \<noteq> s_SaaS_customer"
  proof
    assume "customer = s_SaaS_customer"
    then have "py_in s_SaaS customer"
      by (simp add: classifier_lits)
    with exact show False by (simp add: customer_def)
  qed
  have not_SDK: "\<not> py_in s_SDK customer"
    using sdk py_in_lower [of s_SDK customer] by (auto simp: lower_SDK customer_def)
  have empty_env: "\<not> py_in s_SaaS []" "\<not> py_in s_saas (py_lower [])" "\<not> py_in s_private []"
    by (simp_all add: classifier_lits py_lower_def)
  have "classify_deployment row = s_private"
    unfolding classify_deployment_def Let_def env customer_def [symmetric]
    using empty_env nonblank not_sentinel not_SDK exact sdk known
    by (simp add: customer_def)
  then show ?thesis
    by (simp add: classifier_lits)
qed

theorem customer_saas_case_sensitive_witness:
  "cell_text (discovery_environment
      \<lparr>issue_type = None, summary = None, description = None,
       customer_name = Some [83, 65, 65, 83, 24179, 21488], discovery_environment = None\<rparr>) = [] \<and>
   py_in s_saas (py_lower [83, 65, 65, 83, 24179, 21488]) \<and>
   \<not> py_in s_SaaS [83, 65, 65, 83, 24179, 21488] \<and>
   \<not> py_in s_sdk (py_lower [83, 65, 65, 83, 24179, 21488]) \<and>
   \<not> any_in private_keywords [83, 65, 65, 83, 24179, 21488] \<and>
   classify_deployment
      \<lparr>issue_type = None, summary = None, description = None,
       customer_name = Some [83, 65, 65, 83, 24179, 21488], discovery_environment = None\<rparr>
     = s_private"
proof -
  let ?row = "\<lparr>issue_type = None, summary = None, description = None,
       customer_name = Some [83, 65, 65, 83, 24179, 21488], discovery_environment = None\<rparr>"
  have env: "cell_text (discovery_environment ?row) = []"
    by (simp add: cell_text_def)
  have saas: "py_in s_saas (py_lower (cell_text (customer_name ?row)))"
    by (simp add: cell_text_def py_lower_def lower_cp_def s_saas_def)
  have exact: "\<not> py_in s_SaaS (cell_text (customer_name ?row))"
    by (simp add: cell_text_def s_SaaS_def)
  have sdk: "\<not> py_in s_sdk (py_lower (cell_text (customer_name ?row)))"
    by (simp add: cell_text_def py_lower_def lower_cp_def s_sdk_def)
  have known: "\<not> any_in private_keywords (cell_text (customer_name ?row))"
    by (simp add: cell_text_def private_keywords_def)
  from customer_saas_case_sensitive [OF env saas exact sdk known] env saas exact sdk known
  show ?thesis by (simp add: cell_text_def)
qed

section \<open>Facts about the reconciler\<close>

lemma count_in_filter: "count_in kws text = length (filter (\<lambda>kw. py_in kw text) kws)"
  by (induction kws) simp_all

lemma tokens_in_filter: "tokens_in cs text = filter (\<lambda>c. py_in c text) cs"
  by (induction cs) simp_all

lemma match_count_trimmed: "match_count kws name text = trimmed_match_count kws name text"
  by (simp add: match_count_def trimmed_match_count_def name_parts_def spec_name_parts_def
      count_in_filter Let_def)

lemma find_match_None_iff:
  "find_match kws name faults = None \<longleftrightarrow>
   (\<forall>c \<in> set faults. match_count kws name (combined_text c) < 2)"
  by (induction faults) auto

lemma find_match_Some_iff:
  "find_match kws name faults = Some j \<longleftrightarrow>
   (\<exists>pre post. faults = pre @ j # post \<and>
      (\<forall>c \<in> set pre. match_count kws name (combined_text c) < 2) \<and>
      2 \<le> match_count kws name (combined_text j))"
proof (induction faults)
  case Nil
  show ?case by simp
next
  case (Cons c cs)
  show ?case
  proof (cases "2 \<le> match_count kws name (combined_text c)")
    case True
    have "(\<exists>pre post. c # cs = pre @ j # post \<and>
      (\<forall>c \<in> set pre. match_count kws name (combined_text c) < 2) \<and>
      2 \<le> match_count kws name (combined_text j)) \<longleftrightarrow> c = j"
    proof
      assume "\<exists>pre post. c # cs = pre @ j # post \<and>
        (\<forall>c \<in> set pre. match_count kws name (combined_text c) < 2) \<and>
        2 \<le> match_count kws name (combined_text j)"
      then obtain pre post where d: "c # cs = pre @ j # post"
        and lo: "\<forall>c \<in> set pre. match_count kws name (combined_text c) < 2"
        by blast
      show "c = j"
      proof (cases pre)
        case Nil
        with d show ?thesis by simp
      next
        case (Cons p ps)
        with d have "p = c" by simp
        with Cons lo True show ?thesis by auto
      qed
    next
      assume "c = j"
      with True have "c # cs = [] @ j # cs \<and>
        (\<forall>c \<in> set []. match_count kws name (combined_text c) < 2) \<and>
        2 \<le> match_count kws name (combined_text j)" by simp
      then show "\<exists>pre post. c # cs = pre @ j # post \<and>
        (\<forall>c \<in> set pre. match_count kws name (combined_text c) < 2) \<and>
        2 \<le> match_count kws name (combined_text j)" by blast
    qed
    with True show ?thesis by simp
  next
    case False
    have "(\<exists>pre post. c # cs = pre @ j # post \<and>
      (\<forall>c \<in> set pre. match_count kws name (combined_text c) < 2) \<and>
      2 \<le> match_count kws name (combined_text j)) \<longleftrightarrow>
      (\<exists>pre post. cs = pre @ j # post \<and>
      (\<forall>c \<in> set pre. match_count kws name (combined_text c) < 2) \<and>
      2 \<le> match_count kws name (combined_text j))"
    proof
      assume "\<exists>pre post. c # cs = pre @ j # post \<and>
        (\<forall>c \<in> set pre. match_count kws name (combined_text c) < 2) \<and>
        2 \<le> match_count kws name (combined_text j)"
      then obtain pre post where d: "c # cs = pre @ j # post"
        and lo: "\<forall>c \<in> set pre. match_count kws name (combined_text c) < 2"
        and hi: "2 \<le> match_count kws name (combined_text j)"
        by blast
      show "\<exists>pre post. cs = pre @ j # post \<and>
        (\<forall>c \<in> set pre. match_count kws name (combined_text c) < 2) \<and>
        2 \<le> match_count kws name (combined_text j)"
      proof (cases pre)
        case Nil
        with d hi False show ?thesis by simp
      next
        case (Cons p ps)
        with d lo hi have "cs = ps @ j # post \<and>
          (\<forall>c \<in> set ps. match_count kws name (combined_text c) < 2) \<and>
          2 \<le> match_count kws name (combined_text j)" by simp
        then show ?thesis by blast
      qed
    next
      assume "\<exists>pre post. cs = pre @ j # post \<and>
        (\<forall>c \<in> set pre. match_count kws name (combined_text c) < 2) \<and>
        2 \<le> match_count kws name (combined_text j)"
      then obtain pre post where "cs = pre @ j # post"
        and "\<forall>c \<in> set pre. match_count kws name (combined_text c) < 2"
        and "2 \<le> match_count kws name (combined_text j)"
        by blast
      with False have "c # cs = (c # pre) @ j # post \<and>
        (\<forall>c \<in> set (c # pre). match_count kws name (combined_text c) < 2) \<and>
        2 \<le> match_count kws name (combined_text j)" by simp
      then show "\<exists>pre post. c # cs = pre @ j # post \<and>
        (\<forall>c \<in> set pre. match_count kws name (combined_text c) < 2) \<and>
        2 \<le> match_count kws name (combined_text j)" by blast
    qed
    with False Cons show ?thesis by simp
  qed
qed

lemma match_loop_fst:
  "fst (match_loop faults rows (ms, ns)) =
   ms @ concat (map (\<lambda>row. case bound_issue faults row of Some j \<Rightarrow> [(row, j)] | None \<Rightarrow> []) rows)"
  by (induction rows arbitrary: ms ns) (auto simp: bound_issue_def split: option.splits)

lemma match_loop_snd:
  "snd (match_loop faults rows (ms, ns)) = ns @ filter (\<lambda>row. bound_issue faults row = None) rows"
  by (induction rows arbitrary: ms ns) (auto simp: bound_issue_def split: option.splits)

lemma matches_set:
  "set (fst (match_incidents_with_jira incidents jira)) =
   {(row, j). row \<in> set incidents \<and> bound_issue (jira_faults jira) row = Some j}"
  by (auto simp: match_incidents_with_jira_def match_loop_fst split: option.splits)

lemma no_matches_set:
  "set (snd (match_incidents_with_jira incidents jira)) =
   {row \<in> set incidents. bound_issue (jira_faults jira) row = None}"
  by (auto simp: match_incidents_with_jira_def match_loop_snd)

lemma matched_rows:
  "map fst (fst (match_incidents_with_jira incidents jira)) =
   filter (\<lambda>row. bound_issue (jira_faults jira) row \<noteq> None) incidents"
  unfolding match_incidents_with_jira_def match_loop_fst
  by (induction incidents) (auto split: option.splits)

lemma count_in_append: "count_in (xs @ ys) text = count_in xs text + count_in ys text"
  by (induction xs) simp_all

lemma single_candidate:
  assumes "issue_type j = Some s_fault"
    and "2 \<le> match_count (incident_keywords row) (py_str (report_name row)) (combined_text j)"
  shows "match_incidents_with_jira [row] [j] = ([(row, j)], [])"
  using assms by (simp add: match_incidents_with_jira_def jira_faults_def)

lemma count_le_match_count: "count_in kws text \<le> match_count kws name text"
  by (simp add: match_count_def Let_def)

lemma matched_if_candidate:
  assumes "row \<in> set incidents" and "j \<in> set (jira_faults jira)"
    and "2 \<le> match_count (incident_keywords row) (py_str (report_name row)) (combined_text j)"
  shows "row \<in> fst ` set (fst (match_incidents_with_jira incidents jira)) \<and>
         row \<notin> set (snd (match_incidents_with_jira incidents jira))"
proof -
  from assms(3) have "\<not> match_count (incident_keywords row) (py_str (report_name row))
      (combined_text j) < 2"
    by simp
  with assms(2) have "bound_issue (jira_faults jira) row \<noteq> None"
    unfolding bound_issue_def find_match_None_iff by blast
  then obtain i where i: "bound_issue (jira_faults jira) row = Some i"
    by blast
  with assms(1) have "(row, i) \<in> set (fst (match_incidents_with_jira incidents jira))"
    by (simp add: matches_set)
  then have "row \<in> fst ` set (fst (match_incidents_with_jira incidents jira))"
    by force
  moreover from i have "row \<notin> set (snd (match_incidents_with_jira incidents jira))"
    by (simp add: no_matches_set)
  ultimately show ?thesis by blast
qed

lemma count_list_distinct: "distinct xs \<Longrightarrow> c \<in> set xs \<Longrightarrow> count_list xs c = 1"
  by (induction xs) auto

lemma customers_distinct: "distinct customers"
  by (simp add: customers_def)

lemma customers_once: "c \<in> set customers \<Longrightarrow> count_list customers c = 1"
  by (simp add: count_list_distinct customers_distinct)

lemma special_not_customers:
  "[] \<notin> set customers" "s_nan \<notin> set customers" "k_table \<notin> set customers"
  "k_doc \<notin> set customers" "k_sync \<notin> set customers" "k_login \<notin> set customers"
  "k_blank \<notin> set customers"
  by (simp_all add: customers_def reconciler_lits)

lemma customers_not_special:
  "c \<in> set customers \<Longrightarrow>
   c \<noteq> [] \<and> c \<noteq> s_nan \<and> c \<noteq> k_table \<and> c \<noteq> k_doc \<and> c \<noteq> k_sync \<and> c \<noteq> k_login \<and> c \<noteq> k_blank"
  using special_not_customers by blast

lemma count_list_filter: "count_list (filter P xs) c = (if P c then count_list xs c else 0)"
  by (induction xs) auto

lemma count_in_member: "kw \<in> set kws \<Longrightarrow> py_in kw text \<Longrightarrow> 1 \<le> count_in kws text"
  by (induction kws) auto

lemma scan_find_match: "scan kws name faults r \<longleftrightarrow> find_match kws name faults = r"
proof
  show "scan kws name faults r \<Longrightarrow> find_match kws name faults = r"
    by (induction rule: scan.induct) simp_all
next
  have "scan kws name faults (find_match kws name faults)"
  proof (induction faults)
    case Nil
    show ?case by (simp add: scan_end)
  next
    case (Cons c cs)
    show ?case
    proof (cases "2 \<le> match_count kws name (combined_text c)")
      case True
      then show ?thesis by (simp add: scan_hit)
    next
      case False
      with Cons show ?thesis by (simp add: scan_next)
    qed
  qed
  then show "find_match kws name faults = r \<Longrightarrow> scan kws name faults r"
    by simp
qed

lemma step_match_loop:
  "step faults (rows, st) (rows', st') \<Longrightarrow> match_loop faults rows st = match_loop faults rows' st'"
  by (erule step.cases) (auto simp: scan_find_match)

lemma run_match_loop: "run faults (rows, st) r \<longleftrightarrow> r = match_loop faults rows st"
proof
  have "run faults s r \<Longrightarrow> r = match_loop faults (fst s) (snd s)" for s
  proof (induction rule: run.induct)
    case (run_done faults st)
    show ?case by simp
  next
    case (run_step faults s s' result)
    from run_step.hyps(1) have "match_loop faults (fst s) (snd s) = match_loop faults (fst s') (snd s')"
      using step_match_loop [of faults "fst s" "snd s" "fst s'" "snd s'"] by simp
    with run_step.IH show ?case by simp
  qed
  from this [of "(rows, st)"] show "run faults (rows, st) r \<Longrightarrow> r = match_loop faults rows st"
    by simp
next
  have "run faults (rows, st) (match_loop faults rows st)"
  proof (induction rows arbitrary: st)
    case Nil
    show ?case by (simp add: run_done)
  next
    case (Cons row rows)
    obtain ms ns where st: "st = (ms, ns)" by (cases st)
    show ?case
    proof (cases "find_match (incident_keywords row) (py_str (report_name row)) faults")
      case None
      then have "step faults (row # rows, (ms, ns)) (rows, (ms, ns @ [row]))"
        by (simp add: step_no_match scan_find_match)
      moreover have "run faults (rows, (ms, ns @ [row])) (match_loop faults rows (ms, ns @ [row]))"
        by (rule Cons.IH)
      ultimately have "run faults (row # rows, (ms, ns)) (match_loop faults rows (ms, ns @ [row]))"
        by (rule run_step)
      with None st show ?thesis by simp
    next
      case (Some j)
      then have "step faults (row # rows, (ms, ns)) (rows, (ms @ [(row, j)], ns))"
        by (simp add: step_match scan_find_match)
      moreover have "run faults (rows, (ms @ [(row, j)], ns)) (match_loop faults rows (ms @ [(row, j)], ns))"
        by (rule Cons.IH)
      ultimately have "run faults (row # rows, (ms, ns)) (match_loop faults rows (ms @ [(row, j)], ns))"
        by (rule run_step)
      with Some st show ?thesis by simp
    qed
  qed
  then show "r = match_loop faults rows st \<Longrightarrow> run faults (rows, st) r"
    by simp
qed

lemma reconciles_iff: "reconciles incidents jira r \<longleftrightarrow> r = match_incidents_with_jira incidents jira"
  by (simp add: reconciles_def run_match_loop match_incidents_with_jira_def)

lemmas eval_defs =
  match_incidents_with_jira_def jira_faults_def incident_keywords_def extract_keywords_def
  customers_def combined_text_def match_count_def name_parts_def py_strip_def is_space_def
  py_str_def cell_text_def reconciler_lits Let_def

section \<open>Claims about the reconciler\<close>

text \<open>
  C2, as the specification words it, fails: the source trims the white space around
  the report name once the generic words are removed, and only then measures it.  For
  the incident \<open>inc_login\<close> the untrimmed remainder (\<open>login\<close> and a space) has six code
  points and is found in the summary of \<open>jira_login\<close>, so the specification's score
  reaches 2, on the text that the source builds and also on the three cells put
  together without the spaces.  The source measures the five code points of \<open>login\<close>,
  gives no bonus, and leaves the incident unmatched although \<open>jira_login\<close> is a
  candidate.
\<close>

theorem trim_counterexample:
  "2 \<le> spec_match_count (incident_keywords inc_login) (py_str (report_name inc_login))
         (combined_text jira_login) \<and>
   2 \<le> spec_match_count (incident_keywords inc_login) (py_str (report_name inc_login))
         (cell_text (summary jira_login) @ cell_text (description jira_login)
          @ cell_text (customer_name jira_login)) \<and>
   match_count (incident_keywords inc_login) (py_str (report_name inc_login))
     (combined_text jira_login) = 0 \<and>
   jira_faults [jira_login] = [jira_login] \<and>
   match_incidents_with_jira [inc_login] [jira_login] = ([], [inc_login])"
  by (simp add: inc_login_def jira_login_def eval_defs spec_match_count_def spec_name_parts_def)

text \<open>
  C2, amended.  For every incident row the candidates, the issue rows whose type is
  U+6545 U+969C, are scanned in the order of the table, and the row is bound to the
  first candidate whose score is at least 2: the candidates before it all score below
  2, the pair is in \<open>matches\<close>, no other issue is paired with the row, and the row is
  not in \<open>no_matches\<close>.  The score is the number of keywords of the row (duplicates
  counted) that occur in the candidate's text (summary, description and customer name
  joined by single spaces), plus 2 when the report name, with U+6545 U+969C U+62A5
  U+544A and then U+7684 removed and the white space around the remainder trimmed, is
  longer than 5 and its first 10 code points occur in that text.  When no candidate
  scores 2, every candidate scores below 2 and the row is in \<open>no_matches\<close> and in no
  pair of \<open>matches\<close>.
\<close>

theorem first_candidate_wins:
  assumes "row \<in> set incidents"
  shows
   "(\<exists>pre j post.
       jira_faults jira = pre @ j # post \<and>
       (\<forall>c \<in> set pre.
          trimmed_match_count (incident_keywords row) (py_str (report_name row))
            (combined_text c) < 2) \<and>
       2 \<le> trimmed_match_count (incident_keywords row) (py_str (report_name row))
             (combined_text j) \<and>
       (row, j) \<in> set (fst (match_incidents_with_jira incidents jira)) \<and>
       (\<forall>j'. (row, j') \<in> set (fst (match_incidents_with_jira incidents jira)) \<longrightarrow> j' = j) \<and>
       row \<notin> set (snd (match_incidents_with_jira incidents jira)))
    \<or>
    ((\<forall>c \<in> set (jira_faults jira).
        trimmed_match_count (incident_keywords row) (py_str (report_name row))
          (combined_text c) < 2) \<and>
     row \<in> set (snd (match_incidents_with_jira incidents jira)) \<and>
     row \<notin> fst ` set (fst (match_incidents_with_jira incidents jira)))"
proof (cases "bound_issue (jira_faults jira) row")
  case None
  then have "\<forall>c \<in> set (jira_faults jira).
        trimmed_match_count (incident_keywords row) (py_str (report_name row))
          (combined_text c) < 2"
    by (simp add: bound_issue_def find_match_None_iff match_count_trimmed)
  moreover have "row \<in> set (snd (match_incidents_with_jira incidents jira))"
    using None assms by (simp add: no_matches_set)
  moreover have "row \<notin> fst ` set (fst (match_incidents_with_jira incidents jira))"
    using None by (auto simp: matches_set)
  ultimately show ?thesis by blast
next
  case (Some j)
  then obtain pre post where "jira_faults jira = pre @ j # post"
    and "\<forall>c \<in> set pre.
          trimmed_match_count (incident_keywords row) (py_str (report_name row))
            (combined_text c) < 2"
    and "2 \<le> trimmed_match_count (incident_keywords row) (py_str (report_name row))
             (combined_text j)"
    unfolding bound_issue_def find_match_Some_iff match_count_trimmed by blast
  moreover have "(row, j) \<in> set (fst (match_incidents_with_jira incidents jira))"
    using Some assms by (simp add: matches_set)
  moreover have "\<forall>j'. (row, j') \<in> set (fst (match_incidents_with_jira incidents jira)) \<longrightarrow> j' = j"
    using Some by (simp add: matches_set)
  moreover have "row \<notin> set (snd (match_incidents_with_jira incidents jira))"
    using Some by (simp add: no_matches_set)
  ultimately show ?thesis by blast
qed

theorem first_candidate_wins_witness:
  "inc_didi \<in> set [inc_login, inc_didi] \<and>
   jira_faults [jira_login, jira_didi] = [jira_login] @ jira_didi # [] \<and>
   trimmed_match_count (incident_keywords inc_didi) (py_str (report_name inc_didi))
     (combined_text jira_login) < 2 \<and>
   2 \<le> trimmed_match_count (incident_keywords inc_didi) (py_str (report_name inc_didi))
     (combined_text jira_didi) \<and>
   (inc_didi, jira_didi) \<in> set (fst (match_incidents_with_jira [inc_login, inc_didi] [jira_login, jira_didi])) \<and>
   inc_didi \<notin> set (snd (match_incidents_with_jira [inc_login, inc_didi] [jira_login, jira_didi]))"
proof -
  have 1: "inc_didi \<in> set [inc_login, inc_didi]" by simp
  have 2: "jira_faults [jira_login, jira_didi] = [jira_login] @ jira_didi # []"
    by (simp add: jira_faults_def jira_login_def jira_didi_def)
  have 3: "trimmed_match_count (incident_keywords inc_didi) (py_str (report_name inc_didi))
     (combined_text jira_login) < 2"
    by (simp add: match_count_trimmed [symmetric] inc_didi_def jira_login_def eval_defs)
  have 4: "2 \<le> trimmed_match_count (incident_keywords inc_didi) (py_str (report_name inc_didi))
     (combined_text jira_didi)"
    by (simp add: match_count_trimmed [symmetric] inc_didi_def jira_didi_def eval_defs)
  have ne: "jira_login \<noteq> jira_didi"
    by (simp add: jira_login_def jira_didi_def)
  from first_candidate_wins [OF 1, of "[jira_login, jira_didi]"] 
  have 5: "(inc_didi, jira_didi) \<in> set (fst (match_incidents_with_jira [inc_login, inc_didi] [jira_login, jira_didi])) \<and>
   inc_didi \<notin> set (snd (match_incidents_with_jira [inc_login, inc_didi] [jira_login, jira_didi]))"
    unfolding 2 using 3 4 ne by (auto simp: append_eq_Cons_conv Cons_eq_append_conv)
  from 1 2 3 4 5 show ?thesis by blast
qed

text \<open>
  C3.  The reconciler gives one result per incident row: the lengths of \<open>matches\<close> and
  \<open>no_matches\<close> add up to the number of incident rows, the matched rows together with
  the unmatched rows are exactly the incident rows (as multisets, so a row that occurs
  twice is counted twice), no row is on both sides, and a row is paired with at most
  one issue.
\<close>

theorem reconciler_partition:
  "length (fst (match_incidents_with_jira incidents jira))
     + length (snd (match_incidents_with_jira incidents jira)) = length incidents \<and>
   mset (map fst (fst (match_incidents_with_jira incidents jira)))
     + mset (snd (match_incidents_with_jira incidents jira)) = mset incidents \<and>
   set (map fst (fst (match_incidents_with_jira incidents jira)))
     \<inter> set (snd (match_incidents_with_jira incidents jira)) = {} \<and>
   (\<forall>row j j'. (row, j) \<in> set (fst (match_incidents_with_jira incidents jira)) \<and>
        (row, j') \<in> set (fst (match_incidents_with_jira incidents jira)) \<longrightarrow> j = j')"
proof (intro conjI)
  have m: "mset (map fst (fst (match_incidents_with_jira incidents jira)))
     + mset (snd (match_incidents_with_jira incidents jira)) = mset incidents"
    unfolding matched_rows
    by (simp add: match_incidents_with_jira_def match_loop_snd)
  show "mset (map fst (fst (match_incidents_with_jira incidents jira)))
     + mset (snd (match_incidents_with_jira incidents jira)) = mset incidents"
    by (rule m)
  from m have "size (mset (map fst (fst (match_incidents_with_jira incidents jira)))
     + mset (snd (match_incidents_with_jira incidents jira))) = size (mset incidents)"
    by simp
  then show "length (fst (match_incidents_with_jira incidents jira))
     + length (snd (match_incidents_with_jira incidents jira)) = length incidents"
    by simp
  show "set (map fst (fst (match_incidents_with_jira incidents jira)))
     \<inter> set (snd (match_incidents_with_jira incidents jira)) = {}"
    unfolding matched_rows by (auto simp: no_matches_set)
  show "\<forall>row j j'. (row, j) \<in> set (fst (match_incidents_with_jira incidents jira)) \<and>
        (row, j') \<in> set (fst (match_incidents_with_jira incidents jira)) \<longrightarrow> j = j'"
    by (auto simp: matches_set)
qed

theorem reconciler_partition_witness:
  "(inc_didi, jira_didi) \<in> set (fst (match_incidents_with_jira [inc_login, inc_didi] [jira_login, jira_didi])) \<and>
   length (fst (match_incidents_with_jira [inc_login, inc_didi] [jira_login, jira_didi]))
     + length (snd (match_incidents_with_jira [inc_login, inc_didi] [jira_login, jira_didi])) = 2 \<and>
   mset (map fst (fst (match_incidents_with_jira [inc_login, inc_didi] [jira_login, jira_didi])))
     + mset (snd (match_incidents_with_jira [inc_login, inc_didi] [jira_login, jira_didi]))
     = {#inc_login, inc_didi#}"
proof -
  have "match_incidents_with_jira [inc_login, inc_didi] [jira_login, jira_didi]
      = ([(inc_didi, jira_didi)], [inc_login])"
    by (simp add: inc_login_def inc_didi_def jira_login_def jira_didi_def eval_defs)
  then have "(inc_didi, jira_didi) \<in> set (fst (match_incidents_with_jira [inc_login, inc_didi] [jira_login, jira_didi]))"
    by simp
  with reconciler_partition [of "[inc_login, inc_didi]" "[jira_login, jira_didi]"]
  show ?thesis by simp
qed

text \<open>
  C5, as the specification words it, fails on the number of domain terms: there are
  five, not four.  The incident \<open>inc_five\<close> has no customer token in its name and no
  customer cell, and its keyword list is five different domain terms.
\<close>

theorem five_domain_terms_counterexample:
  "incident_keywords inc_five = [k_table, k_doc, k_sync, k_login, k_blank] \<and>
   distinct (incident_keywords inc_five) \<and> length (incident_keywords inc_five) = 5 \<and>
   tokens_in customers (py_str (report_name inc_five)) = [] \<and>
   cell_text (incident_customer inc_five) = []"
  by (simp add: inc_five_def eval_defs)

text \<open>
  C5, amended.  The keyword list of an incident row is: every token of the fixed
  customer list that occurs in the report name, in the order of the list; then the five
  fixed domain terms (spreadsheet/form, document/file, synchronization, login, blank
  screen), each one exactly when one of its trigger substrings occurs in the report
  name; then the customer cell itself when it is neither empty (or missing) nor the
  literal \<open>nan\<close>.
\<close>

theorem incident_keywords_spec:
  "incident_keywords row = spec_keywords row \<and>
   map fst domain_terms = [k_table, k_doc, k_sync, k_login, k_blank] \<and>
   distinct (map fst domain_terms) \<and> length domain_terms = 5"
  by (simp add: incident_keywords_def spec_keywords_def extract_keywords_def tokens_in_filter
      domain_terms_def Let_def reconciler_lits)

theorem incident_keywords_spec_witness:
  "incident_keywords inc_didi_customer = spec_keywords inc_didi_customer \<and>
   spec_keywords inc_didi_customer = [s_didi, k_doc, k_sync, s_didi]"
proof -
  have "incident_keywords inc_didi_customer = [s_didi, k_doc, k_sync, s_didi]"
    by (simp add: inc_didi_customer_def s_didi_def s_didi_report_def eval_defs)
  with incident_keywords_spec [of inc_didi_customer] show ?thesis by simp
qed

text \<open>
  C6.  The reconciler is deterministic.  Taken as a transition system, a run on given
  incident and issue tables exists (it ends in what \<open>match_incidents_with_jira\<close>
  returns), any two runs on the same tables end in the same \<open>matches\<close> and the same
  \<open>no_matches\<close>, and in the result no incident row is paired with two different issues.
\<close>

theorem reconciler_deterministic:
  "reconciles incidents jira (match_incidents_with_jira incidents jira) \<and>
   (\<forall>r1 r2. reconciles incidents jira r1 \<and> reconciles incidents jira r2 \<longrightarrow>
      r1 = r2 \<and>
      (\<forall>row j j'. (row, j) \<in> set (fst r1) \<and> (row, j') \<in> set (fst r1) \<longrightarrow> j = j'))"
proof (intro conjI allI impI)
  show "reconciles incidents jira (match_incidents_with_jira incidents jira)"
    by (simp add: reconciles_iff)
next
  fix r1 r2
  assume "reconciles incidents jira r1 \<and> reconciles incidents jira r2"
  then show "r1 = r2" by (simp add: reconciles_iff)
next
  fix r1 r2 row j j'
  assume "reconciles incidents jira r1 \<and> reconciles incidents jira r2"
    and "(row, j) \<in> set (fst r1) \<and> (row, j') \<in> set (fst r1)"
  then show "j = j'"
    by (auto simp: reconciles_iff matches_set)
qed

theorem reconciler_deterministic_witness:
  "reconciles [inc_login, inc_didi] [jira_login, jira_didi] ([(inc_didi, jira_didi)], [inc_login]) \<and>
   match_incidents_with_jira [inc_login, inc_didi] [jira_login, jira_didi]
     = ([(inc_didi, jira_didi)], [inc_login])"
proof -
  have "match_incidents_with_jira [inc_login, inc_didi] [jira_login, jira_didi]
      = ([(inc_didi, jira_didi)], [inc_login])"
    by (simp add: inc_login_def inc_didi_def jira_login_def jira_didi_def eval_defs)
  with reconciler_deterministic [of "[inc_login, inc_didi]" "[jira_login, jira_didi]"]
  show ?thesis by simp
qed

text \<open>
  C7.  The score is monotone in the keywords: for a fixed candidate text, putting into
  the keyword list (anywhere, and in particular at its end, as the source does) a
  keyword that occurs in the text never lowers the score, it raises it by exactly one;
  so a candidate that reached the threshold 2 still reaches it.
\<close>

theorem match_count_monotone:
  assumes "py_in kw text"
  shows "match_count (xs @ ys) name text \<le> match_count (xs @ kw # ys) name text \<and>
         match_count (kws @ [kw]) name text = match_count kws name text + 1 \<and>
         (2 \<le> match_count kws name text \<longrightarrow> 2 \<le> match_count (kws @ [kw]) name text)"
  using assms by (simp add: match_count_def Let_def count_in_append)

theorem match_count_monotone_witness:
  "py_in k_sync (combined_text jira_didi) \<and>
   match_count [[28404, 28404]] (py_str (report_name inc_didi)) (combined_text jira_didi) = 1 \<and>
   match_count ([[28404, 28404]] @ [k_sync]) (py_str (report_name inc_didi)) (combined_text jira_didi) = 2"
proof -
  have 1: "py_in k_sync (combined_text jira_didi)"
    by (simp add: jira_didi_def eval_defs)
  have 2: "match_count [[28404, 28404]] (py_str (report_name inc_didi)) (combined_text jira_didi) = 1"
    by (simp add: inc_didi_def jira_didi_def eval_defs)
  from match_count_monotone [OF 1, of "[]" "[]" "py_str (report_name inc_didi)" "[[28404, 28404]]"] 1 2
  show ?thesis by simp
qed

text \<open>
  C8, as the specification words it, fails: the keyword list of the scenario's incident
  also holds "document" (U+6587 U+6863), which is in the report name, so an issue whose
  summary is the customer followed by "document" and whose description is
  "synchronization" scores 3, not 2.
\<close>

theorem didi_scenario_counterexample:
  "report_name inc_didi = Some s_didi_report \<and>
   cell_text (incident_customer inc_didi) = [] \<and>
   py_in s_didi (cell_text (summary jira_didi_doc)) \<and>
   py_in k_sync (cell_text (description jira_didi_doc)) \<and>
   incident_keywords inc_didi = [s_didi, k_doc, k_sync] \<and>
   match_count (incident_keywords inc_didi) (py_str (report_name inc_didi))
     (combined_text jira_didi_doc) = 3"
  by (simp add: inc_didi_def jira_didi_doc_def s_didi_def s_didi_report_def eval_defs)

text \<open>
  C8, amended.  For an incident whose report name is that of the scenario and whose
  customer cell adds no keyword, the keyword list is the customer U+6EF4 U+6EF4,
  "document" and "synchronization".  Against an issue whose summary contains the
  customer and whose description contains "synchronization", both keywords occur in the
  text and the score is at least 2; it is exactly 2 when "document" does not occur in
  the text.  So the incident is matched whenever the issue is among the candidates, and
  it is paired with this issue when the issue is the only candidate.
\<close>

theorem didi_scenario:
  assumes name: "report_name row = Some s_didi_report"
    and cust: "cell_text (incident_customer row) = [] \<or> cell_text (incident_customer row) = s_nan"
    and sum: "py_in s_didi (cell_text (summary j))"
    and desc: "py_in k_sync (cell_text (description j))"
  shows "incident_keywords row = [s_didi, k_doc, k_sync] \<and>
         py_in s_didi (combined_text j) \<and> py_in k_sync (combined_text j) \<and>
         2 \<le> match_count (incident_keywords row) (py_str (report_name row)) (combined_text j) \<and>
         (match_count (incident_keywords row) (py_str (report_name row)) (combined_text j) = 2
            \<longleftrightarrow> \<not> py_in k_doc (combined_text j)) \<and>
         (row \<in> set incidents \<and> j \<in> set (jira_faults jira) \<longrightarrow>
            row \<in> fst ` set (fst (match_incidents_with_jira incidents jira)) \<and>
            row \<notin> set (snd (match_incidents_with_jira incidents jira))) \<and>
         (issue_type j = Some s_fault \<longrightarrow>
            match_incidents_with_jira [row] [j] = ([(row, j)], []))"
proof -
  have kws: "incident_keywords row = [s_didi, k_doc, k_sync]"
    using cust
    by (auto simp: incident_keywords_def name py_str_def s_didi_report_def s_didi_def
        extract_keywords_def customers_def reconciler_lits Let_def)
  have in1: "py_in s_didi (combined_text j)"
    unfolding combined_text_def using sum by (rule py_in_appendI1)
  have in2: "py_in k_sync (combined_text j)"
    unfolding combined_text_def using desc
    by (intro py_in_appendI2 py_in_appendI1)
  have parts: "name_parts (py_str (report_name row)) = [28404, 28404, 25991, 26723, 21516, 27493]"
    by (simp add: name py_str_def s_didi_report_def name_parts_def py_strip_def is_space_def
        reconciler_lits)
  have doc: "py_in k_doc [28404, 28404, 25991, 26723, 21516, 27493]"
    by (simp add: k_doc_def)
  have bonus: "py_in [28404, 28404, 25991, 26723, 21516, 27493] (combined_text j)
      \<Longrightarrow> py_in k_doc (combined_text j)"
    using doc by (rule py_in_trans)
  have mc: "match_count (incident_keywords row) (py_str (report_name row)) (combined_text j)
      = 2 + (if py_in k_doc (combined_text j) then 1 else 0)
          + (if py_in [28404, 28404, 25991, 26723, 21516, 27493] (combined_text j) then 2 else 0)"
    using in1 in2 by (simp add: kws match_count_def parts Let_def)
  have ge: "2 \<le> match_count (incident_keywords row) (py_str (report_name row)) (combined_text j)"
    by (simp add: mc)
  have eq: "match_count (incident_keywords row) (py_str (report_name row)) (combined_text j) = 2
            \<longleftrightarrow> \<not> py_in k_doc (combined_text j)"
    using bonus by (auto simp: mc)
  have bind: "issue_type j = Some s_fault \<longrightarrow>
            match_incidents_with_jira [row] [j] = ([(row, j)], [])"
    using ge by (simp add: single_candidate)
  have some: "row \<in> set incidents \<and> j \<in> set (jira_faults jira) \<longrightarrow>
            row \<in> fst ` set (fst (match_incidents_with_jira incidents jira)) \<and>
            row \<notin> set (snd (match_incidents_with_jira incidents jira))"
    using ge matched_if_candidate [of row incidents j jira] by blast
  from kws in1 in2 ge eq some bind show ?thesis by blast
qed

theorem didi_scenario_witness:
  "report_name inc_didi = Some s_didi_report \<and>
   cell_text (incident_customer inc_didi) = [] \<and>
   py_in s_didi (cell_text (summary jira_didi)) \<and>
   py_in k_sync (cell_text (description jira_didi)) \<and>
   issue_type jira_didi = Some s_fault \<and>
   incident_keywords inc_didi = [s_didi, k_doc, k_sync] \<and>
   match_count (incident_keywords inc_didi) (py_str (report_name inc_didi))
     (combined_text jira_didi) = 2 \<and>
   match_incidents_with_jira [inc_didi] [jira_didi] = ([(inc_didi, jira_didi)], [])"
proof -
  have 1: "report_name inc_didi = Some s_didi_report"
    by (simp add: inc_didi_def s_didi_report_def)
  have 2: "cell_text (incident_customer inc_didi) = []"
    by (simp add: inc_didi_def cell_text_def)
  have 3: "py_in s_didi (cell_text (summary jira_didi))"
    by (simp add: jira_didi_def cell_text_def s_didi_def)
  have 4: "py_in k_sync (cell_text (description jira_didi))"
    by (simp add: jira_didi_def cell_text_def k_sync_def)
  have 5: "issue_type jira_didi = Some s_fault"
    by (simp add: jira_didi_def)
  have 6: "\<not> py_in k_doc (combined_text jira_didi)"
    by (simp add: jira_didi_def eval_defs)
  from 2 have two: "cell_text (incident_customer inc_didi) = [] \<or>
      cell_text (incident_customer inc_didi) = s_nan" by simp
  note r = didi_scenario [OF 1 two 3 4]
  from r have kw: "incident_keywords inc_didi = [s_didi, k_doc, k_sync]"
    by blast
  from r 6 have mc: "match_count (incident_keywords inc_didi) (py_str (report_name inc_didi))
     (combined_text jira_didi) = 2"
    by blast
  from r 5 have bind: "match_incidents_with_jira [inc_didi] [jira_didi] = ([(inc_didi, jira_didi)], [])"
    by blast
  from 1 2 3 4 5 kw mc bind show ?thesis by blast
qed

text \<open>
  C9.  The keyword list may hold a keyword twice, and each copy counts: when the
  customer cell of an incident is a token of the customer list that also occurs in its
  report name, that token is in the keyword list exactly twice, so a candidate whose
  text contains that one token already scores at least 2; the incident is then matched
  whenever such a candidate exists, and paired with it when it is the only candidate.
\<close>

theorem duplicate_customer_keyword:
  assumes tok: "c \<in> set customers"
    and name: "py_in c (py_str (report_name row))"
    and cust: "incident_customer row = Some c"
  shows "count_list (incident_keywords row) c = 2 \<and>
         (py_in c (combined_text j) \<longrightarrow>
            2 \<le> match_count (incident_keywords row) (py_str (report_name row)) (combined_text j) \<and>
            (row \<in> set incidents \<and> j \<in> set (jira_faults jira) \<longrightarrow>
               row \<in> fst ` set (fst (match_incidents_with_jira incidents jira)) \<and>
               row \<notin> set (snd (match_incidents_with_jira incidents jira))) \<and>
            (issue_type j = Some s_fault \<longrightarrow>
               match_incidents_with_jira [row] [j] = ([(row, j)], [])))"
proof -
  note ns = customers_not_special [OF tok]
  have kws: "incident_keywords row = extract_keywords (Some (py_str (report_name row))) @ [c]"
    using ns by (simp add: incident_keywords_def cust cell_text_def Let_def)
  have once: "count_list (extract_keywords (Some (py_str (report_name row)))) c = 1"
    using ns name customers_once [OF tok]
    by (simp add: extract_keywords_def tokens_in_filter count_list_filter)
  have twice: "count_list (incident_keywords row) c = 2"
    by (simp add: kws once)
  have score: "2 \<le> match_count (incident_keywords row) (py_str (report_name row)) (combined_text j)"
    if blob: "py_in c (combined_text j)"
  proof -
    have "c \<in> set (extract_keywords (Some (py_str (report_name row))))"
      using tok name by (simp add: extract_keywords_def tokens_in_filter)
    then have "1 \<le> count_in (extract_keywords (Some (py_str (report_name row)))) (combined_text j)"
      using blob by (rule count_in_member)
    with blob have "2 \<le> count_in (incident_keywords row) (combined_text j)"
      by (simp add: kws count_in_append)
    then show ?thesis
      using count_le_match_count [of "incident_keywords row" "combined_text j" "py_str (report_name row)"]
      by simp
  qed
  have some: "row \<in> fst ` set (fst (match_incidents_with_jira incidents jira)) \<and>
      row \<notin> set (snd (match_incidents_with_jira incidents jira))"
    if "py_in c (combined_text j)" "row \<in> set incidents" "j \<in> set (jira_faults jira)"
    using that score matched_if_candidate [of row incidents j jira] by blast
  have only: "match_incidents_with_jira [row] [j] = ([(row, j)], [])"
    if "py_in c (combined_text j)" "issue_type j = Some s_fault"
    using that score by (simp add: single_candidate)
  from twice score some only show ?thesis
    by blast
qed

theorem duplicate_customer_keyword_witness:
  "s_didi \<in> set customers \<and>
   py_in s_didi (py_str (report_name inc_didi_customer)) \<and>
   incident_customer inc_didi_customer = Some s_didi \<and>
   py_in s_didi (combined_text jira_didi_only) \<and>
   issue_type jira_didi_only = Some s_fault \<and>
   incident_keywords inc_didi_customer = [s_didi, k_doc, k_sync, s_didi] \<and>
   filter (\<lambda>kw. py_in kw (combined_text jira_didi_only)) (incident_keywords inc_didi_customer)
     = [s_didi, s_didi] \<and>
   count_list (incident_keywords inc_didi_customer) s_didi = 2 \<and>
   match_incidents_with_jira [inc_didi_customer] [jira_didi_only]
     = ([(inc_didi_customer, jira_didi_only)], [])"
proof -
  have 1: "s_didi \<in> set customers"
    by (simp add: s_didi_def customers_def)
  have 2: "py_in s_didi (py_str (report_name inc_didi_customer))"
    by (simp add: inc_didi_customer_def s_didi_def s_didi_report_def py_str_def)
  have 3: "incident_customer inc_didi_customer = Some s_didi"
    by (simp add: inc_didi_customer_def)
  have 4: "py_in s_didi (combined_text jira_didi_only)"
    by (simp add: jira_didi_only_def s_didi_def eval_defs)
  have 5: "issue_type jira_didi_only = Some s_fault"
    by (simp add: jira_didi_only_def)
  have 6: "incident_keywords inc_didi_customer = [s_didi, k_doc, k_sync, s_didi]"
    by (simp add: inc_didi_customer_def s_didi_def s_didi_report_def eval_defs)
  have 7: "filter (\<lambda>kw. py_in kw (combined_text jira_didi_only)) [s_didi, k_doc, k_sync, s_didi]
     = [s_didi, s_didi]"
    by (simp add: jira_didi_only_def s_didi_def eval_defs)
  note r = duplicate_customer_keyword [OF 1 2 3, of jira_didi_only]
  from r have 8: "count_list (incident_keywords inc_didi_customer) s_didi = 2"
    by blast
  from r 4 5 have 9: "match_incidents_with_jira [inc_didi_customer] [jira_didi_only]
     = ([(inc_didi_customer, jira_didi_only)], [])"
    by blast
  from 1 2 3 4 5 6 7 8 9 show ?thesis by simp
qed

end
